theory Spec2Isabelle
  imports Main "HOL-Library.AList" "HOL-Library.Sublist" "HOL-Library.Char_ord"
    "HOL-Library.List_Lexorder"
begin

section \<open>The filesystem behaviors of advanced-rest-client/filesystem-behavior\<close>

text \<open>
  The repository holds two Polymer behaviors, \<^verbatim>\<open>FileBehaviors.WebFilesystemBehavior\<close>
  (\<^verbatim>\<open>src/web-filesystem-behavior.js\<close>) and \<^verbatim>\<open>FileBehaviors.SyncFilesystemBehaviorImpl\<close>
  (\<^verbatim>\<open>src/sync-filesystem-behavior.js\<close>). An element mixes in the first alone (the local,
  persistent filesystem) or the array of both, in which the methods of the second
  override those of the first (the synced filesystem).

  Every method talks to the browser through callbacks and promises. The embedding is
  big-step: a method is a function on a \<open>world\<close> (the element's attributes, the files of
  the filesystem root, the answers the browser is going to give, and a log of what
  happened), run up to the point where nothing of it is left to do. A promise is the
  pair of its outcome and the world reached when it settled. The callbacks of the mount
  are kept as functions of their own as well, so that two mounts started before either
  has finished can be replayed callback by callback.

  The browser is not part of the repository. It is modelled by what its documented
  interface does to the files when a request succeeds, and by a list of answers that
  says which of the requests to come fail, and with what. Listeners of the events and
  Polymer's own change notifications are left out.
\<close>

subsection \<open>Values\<close>

text \<open>Which of the two behaviors the element mixes in.\<close>

datatype backend = Persistent | Synced

text \<open>
  What a promise is rejected with, or an error callback is called with: an object with
  a \<^verbatim>\<open>message\<close>, or nothing (\<^verbatim>\<open>undefined\<close>, which is what \<^verbatim>\<open>chrome.runtime.lastError\<close>
  is when no error is recorded).
\<close>

datatype reason = NoReason | Error (message: string)

text \<open>
  The \<^verbatim>\<open>content\<close> attribute (\<^verbatim>\<open>@type String|ArrayBuffer|Blob\<close>): never assigned, a
  string, or an object of one of the other two documented types, neither of which is a
  string or a sequence. Strings are equal when their characters are, objects when they
  are the same object; the number tells the objects apart. A string stands for the
  bytes the browser encodes it to: the blob made of a string holds these bytes, and
  reading a file as text gives back the bytes it holds. The browser's encoding and
  decoding (UTF-8) are not modelled.
\<close>

datatype content = NoContent | Text string | NonString nat

type_synonym handle = nat

text \<open>
  The declared properties. \<open>filename\<close> is \<open>[]\<close> both when the attribute was never
  assigned and when it is the empty string: the source only ever tests it for
  truthiness (\<^verbatim>\<open>this.auto && this.filename\<close>,
  \<^verbatim>\<open>!this.filename || this.filename === ''\<close>), which treats the two alike.
\<close>

record element =
  backend :: backend
  quota :: int
  grantedQuota :: int
  filename :: string
  auto :: bool
  content :: content
  mime :: string
  fileSystem :: "handle option"

datatype entry = FileEntry (name: string)

datatype blob = Blob (bytes: string) (mime_type: string)

datatype 'a outcome = Resolved 'a | Rejected reason | Pending

text \<open>The requests an element sends to the browser.\<close>

datatype request =
    RequestQuota int
  | RequestFileSystem int
  | SyncRequestFileSystem
  | QueryUsageAndQuota
  | SyncGetUsageAndQuota
  | GetFile string
  | CreateWriter string
  | Truncate string nat
  | WriteBlob string blob
  | GetFileOf string
  | ReadAsText string
  | CreateReader
  | ReadEntries
  | Remove string

text \<open>The events the behaviors fire, and the detail object each is fired with.\<close>

datatype event =
  filesystem_ready | filesystem_usage | error | file_read | file_write | directory_read | removed

datatype detail =
    NoDetail
  | ErrorKey reason
  | MessagerKey string
  | MessageKey reason
  | Raw reason
  | Message string
  | Usage int int
  | ContentKey string
  | FilesKey "entry list"
  | EmptyObject

text \<open>
  The log: requests sent, events fired, and the two read-only properties written
  through their private setters.
\<close>

datatype action =
    Request request
  | Fire event detail
  | SetFileSystem handle
  | SetGrantedQuota int

text \<open>
  The world. \<open>disk\<close> lists the files of the filesystem root in directory order, name
  and bytes. \<open>faults\<close> is what the browser is going to answer to the requests to come,
  in order: \<open>None\<close> is success, \<open>Some r\<close> the failure \<open>r\<close>; past its end every request
  succeeds. \<open>grant\<close> is the browser's quota policy (bytes granted for bytes asked),
  \<open>page_sizes\<close> how its directory reader cuts a listing into pages (a page of \<open>Suc n\<close>
  entries for each \<open>n\<close>), \<open>handles\<close> the number of filesystem objects handed out so
  far, and \<open>tasks\<close> the callbacks deferred with \<^verbatim>\<open>this.async\<close>, each of which restores
  \<open>auto\<close> to the value it holds.
\<close>

record world =
  el :: element
  disk :: "(string \<times> string) list"
  faults :: "reason option list"
  grant :: "int \<Rightarrow> int"
  usageBytes :: int
  quotaBytes :: int
  page_sizes :: "nat list"
  handles :: nat
  tasks :: "bool list"
  log :: "action list"

subsection \<open>The browser\<close>

definition issue :: "request \<Rightarrow> world \<Rightarrow> world" where
  "issue r w = w\<lparr>log := log w @ [Request r]\<rparr>"

definition answer :: "world \<Rightarrow> reason option \<times> world" where
  "answer w = (case faults w of [] \<Rightarrow> (None, w) | f # fs \<Rightarrow> (f, w\<lparr>faults := fs\<rparr>))"

definition fire :: "event \<Rightarrow> detail \<Rightarrow> world \<Rightarrow> world" where
  "fire e d w = w\<lparr>log := log w @ [Fire e d]\<rparr>"

text \<open>Every successful mount hands out a filesystem object of its own.\<close>

definition new_handle :: "world \<Rightarrow> handle \<times> world" where
  "new_handle w = (Suc (handles w), w\<lparr>handles := Suc (handles w)\<rparr>)"

text \<open>
  \<^verbatim>\<open>root.getFile(name, {create: true}, ok, fail)\<close>: the file is created, empty, when it
  is not there.
\<close>

definition root_getFile :: "string \<Rightarrow> world \<Rightarrow> entry outcome \<times> world" where
  "root_getFile n w =
     (case answer (issue (GetFile n) w) of
        (Some r, w1) \<Rightarrow> (Rejected r, w1)
      | (None, w1) \<Rightarrow>
          (Resolved (FileEntry n),
           (case map_of (disk w1) n of
              None \<Rightarrow> w1\<lparr>disk := disk w1 @ [(n, [])]\<rparr>
            | Some _ \<Rightarrow> w1)))"

text \<open>\<^verbatim>\<open>fileEntry.createWriter(ok, fail)\<close>.\<close>

definition createWriter :: "string \<Rightarrow> world \<Rightarrow> unit outcome \<times> world" where
  "createWriter n w =
     (case answer (issue (CreateWriter n) w) of
        (Some r, w1) \<Rightarrow> (Rejected r, w1)
      | (None, w1) \<Rightarrow> (Resolved (), w1))"

text \<open>
  \<^verbatim>\<open>fileWriter.truncate(k)\<close>: the file keeps its first \<open>k\<close> bytes. A file that is gone
  is a failure.
\<close>

definition writer_truncate :: "string \<Rightarrow> nat \<Rightarrow> world \<Rightarrow> unit outcome \<times> world" where
  "writer_truncate n k w =
     (case answer (issue (Truncate n k) w) of
        (Some r, w1) \<Rightarrow> (Rejected r, w1)
      | (None, w1) \<Rightarrow>
          (case map_of (disk w1) n of
             None \<Rightarrow> (Rejected (Error ''NotFoundError''), w1)
           | Some old \<Rightarrow> (Resolved (), w1\<lparr>disk := AList.update n (take k old) (disk w1)\<rparr>)))"

text \<open>
  \<^verbatim>\<open>fileWriter.write(blob)\<close> on a writer that was just created: the bytes go to
  position 0 and replace what was there; what the file held beyond them stays.
\<close>

definition writer_write :: "string \<Rightarrow> blob \<Rightarrow> world \<Rightarrow> unit outcome \<times> world" where
  "writer_write n b w =
     (case answer (issue (WriteBlob n b) w) of
        (Some r, w1) \<Rightarrow> (Rejected r, w1)
      | (None, w1) \<Rightarrow>
          (case map_of (disk w1) n of
             None \<Rightarrow> (Rejected (Error ''NotFoundError''), w1)
           | Some old \<Rightarrow>
               (Resolved (),
                w1\<lparr>disk := AList.update n (bytes b @ drop (length (bytes b)) old) (disk w1)\<rparr>)))"

text \<open>\<^verbatim>\<open>fileEntry.file(ok, fail)\<close>: a snapshot of the file's bytes.\<close>

definition entry_file :: "string \<Rightarrow> world \<Rightarrow> string outcome \<times> world" where
  "entry_file n w =
     (case answer (issue (GetFileOf n) w) of
        (Some r, w1) \<Rightarrow> (Rejected r, w1)
      | (None, w1) \<Rightarrow>
          (case map_of (disk w1) n of
             None \<Rightarrow> (Rejected (Error ''NotFoundError''), w1)
           | Some bs \<Rightarrow> (Resolved bs, w1)))"

text \<open>
  \<^verbatim>\<open>reader.readAsText(file)\<close>: on failure \<^verbatim>\<open>onerror\<close> runs before \<^verbatim>\<open>onloadend\<close>, so the
  promise is rejected; otherwise \<^verbatim>\<open>onloadend\<close> resolves it with the text.
\<close>

definition readAsText :: "string \<Rightarrow> string \<Rightarrow> world \<Rightarrow> string outcome \<times> world" where
  "readAsText n bs w =
     (case answer (issue (ReadAsText n) w) of
        (Some r, w1) \<Rightarrow> (Rejected r, w1)
      | (None, w1) \<Rightarrow> (Resolved bs, w1))"

text \<open>\<^verbatim>\<open>fileEntry.remove(ok, fail)\<close>.\<close>

definition entry_remove :: "string \<Rightarrow> world \<Rightarrow> unit outcome \<times> world" where
  "entry_remove n w =
     (case answer (issue (Remove n) w) of
        (Some r, w1) \<Rightarrow> (Rejected r, w1)
      | (None, w1) \<Rightarrow>
          (case map_of (disk w1) n of
             None \<Rightarrow> (Rejected (Error ''NotFoundError''), w1)
           | Some _ \<Rightarrow> (Resolved (), w1\<lparr>disk := AList.delete n (disk w1)\<rparr>)))"

text \<open>
  \<^verbatim>\<open>new Blob(parts, {type: t})\<close>. The first argument is a sequence of parts, or
  \<^verbatim>\<open>undefined\<close> (an empty blob), or something that is not a sequence, on which the
  constructor throws a \<^verbatim>\<open>TypeError\<close> (\<open>None\<close>).
\<close>

datatype blobparts = Parts "string list" | Missing | NotASequence

fun new_Blob :: "blobparts \<Rightarrow> string \<Rightarrow> blob option" where
  "new_Blob (Parts ps) t = Some (Blob (concat ps) t)"
| "new_Blob Missing t = Some (Blob [] t)"
| "new_Blob NotASequence t = None"

text \<open>
  The directory reader hands the entries of the root out in pages, never an empty one
  before the last entry is out, and an empty page from then on.
\<close>

fun chop :: "nat list \<Rightarrow> 'a list \<Rightarrow> 'a list list" where
  "chop ns [] = []"
| "chop [] (x # xs) = [x # xs]"
| "chop (n # ns) (x # xs) = (x # take n xs) # chop ns (drop n xs)"

definition root_entries :: "world \<Rightarrow> entry list" where
  "root_entries w = map (\<lambda>(n, bs). FileEntry n) (disk w)"

text \<open>
  \<^verbatim>\<open>Array.prototype.sort()\<close> without a comparator orders the elements by their
  conversion to a string, and keeps the order of elements that convert to the same
  string. A \<^verbatim>\<open>FileEntry\<close> converts to \<^verbatim>\<open>[object FileEntry]\<close>.
\<close>

definition entry_toString :: "entry \<Rightarrow> string" where
  "entry_toString e = ''[object FileEntry]''"

definition array_sort :: "entry list \<Rightarrow> entry list" where
  "array_sort es = sort_key entry_toString es"

text \<open>
  \<^verbatim>\<open>String.prototype.indexOf\<close>: where the first occurrence of \<open>p\<close> in \<open>s\<close> starts, or
  \<open>-1\<close>.
\<close>

fun indexOf_from :: "nat \<Rightarrow> string \<Rightarrow> string \<Rightarrow> int" where
  "indexOf_from i [] p = (if p = [] then int i else - 1)"
| "indexOf_from i (c # cs) p =
     (if prefix p (c # cs) then int i else indexOf_from (Suc i) cs p)"

definition indexOf :: "string \<Rightarrow> string \<Rightarrow> int" where
  "indexOf s p = indexOf_from 0 s p"

subsection \<open>Promises\<close>

text \<open>\<^verbatim>\<open>p.then(f)\<close>, for an \<open>f\<close> that returns a promise.\<close>

definition andThen ::
  "'a outcome \<times> world \<Rightarrow> ('a \<Rightarrow> world \<Rightarrow> 'b outcome \<times> world) \<Rightarrow> 'b outcome \<times> world" where
  "andThen p f =
     (case p of
        (Resolved v, w) \<Rightarrow> f v w
      | (Rejected r, w) \<Rightarrow> (Rejected r, w)
      | (Pending, w) \<Rightarrow> (Pending, w))"

subsection \<open>Mounting: \<^verbatim>\<open>_requestFilesystem\<close>\<close>

text \<open>
  The setters Polymer generates for the two \<^verbatim>\<open>readOnly\<close> properties. (The
  \<^verbatim>\<open>granted-quota-changed\<close> event of \<^verbatim>\<open>notify: true\<close> is Polymer's, and is not logged.)
\<close>

definition priv_setFileSystem :: "handle \<Rightarrow> world \<Rightarrow> world" where
  "priv_setFileSystem fs w =
     w\<lparr>el := (el w)\<lparr>fileSystem := Some fs\<rparr>, log := log w @ [SetFileSystem fs]\<rparr>"

definition priv_setGrantedQuota :: "int \<Rightarrow> world \<Rightarrow> world" where
  "priv_setGrantedQuota g w =
     w\<lparr>el := (el w)\<lparr>grantedQuota := g\<rparr>, log := log w @ [SetGrantedQuota g]\<rparr>"

text \<open>
  The callbacks of the persistent mount (\<^verbatim>\<open>src/web-filesystem-behavior.js\<close>, lines
  155 to 172):
  \<^verbatim>\<open>
  var onInit = function(fs) { this._setFileSystem(fs); resolve(); };
  navigator.webkitPersistentStorage.requestQuota(this.quota, function(grantedBytes) {
    this._setGrantedQuota(grantedBytes);
    window.requestFileSystem(window.PERSISTENT, grantedBytes, onInit.bind(this), onError);
  }.bind(this), onError);
  \<close>
\<close>

definition onInit :: "handle \<Rightarrow> world \<Rightarrow> world" where
  "onInit fs w = priv_setFileSystem fs w"

definition quota_granted :: "int \<Rightarrow> world \<Rightarrow> world" where
  "quota_granted grantedBytes w =
     issue (RequestFileSystem grantedBytes) (priv_setGrantedQuota grantedBytes w)"

definition web_requestFilesystem :: "world \<Rightarrow> unit outcome \<times> world" where
  "web_requestFilesystem w =
     (if fileSystem (el w) \<noteq> None then (Resolved (), w)
      else
        (case answer (issue (RequestQuota (quota (el w))) w) of
           (Some e, w1) \<Rightarrow> (Rejected e, w1)
         | (None, w1) \<Rightarrow>
             (case answer (quota_granted (grant w1 (quota (el w1))) w1) of
                (Some e, w2) \<Rightarrow> (Rejected e, w2)
              | (None, w2) \<Rightarrow>
                  (case new_handle w2 of (fs, w3) \<Rightarrow> (Resolved (), onInit fs w3)))))"

text \<open>
  The synced mount (\<^verbatim>\<open>src/sync-filesystem-behavior.js\<close>, lines 19 to 34). On failure
  the browser calls back with \<^verbatim>\<open>null\<close> and the promise is rejected with
  \<^verbatim>\<open>chrome.runtime.lastError\<close>.
\<close>

definition sync_requestFilesystem :: "world \<Rightarrow> unit outcome \<times> world" where
  "sync_requestFilesystem w =
     (if fileSystem (el w) \<noteq> None then (Resolved (), w)
      else
        (case answer (issue SyncRequestFileSystem w) of
           (Some lastError, w1) \<Rightarrow> (Rejected lastError, w1)
         | (None, w1) \<Rightarrow>
             (case new_handle w1 of (fs, w2) \<Rightarrow> (Resolved (), priv_setFileSystem fs w2))))"

text \<open>\<^verbatim>\<open>this._requestFilesystem()\<close>: the synced behavior's method overrides the other.\<close>

definition priv_requestFilesystem :: "world \<Rightarrow> unit outcome \<times> world" where
  "priv_requestFilesystem w =
     (case backend (el w) of
        Persistent \<Rightarrow> web_requestFilesystem w
      | Synced \<Rightarrow> sync_requestFilesystem w)"

definition requestFilesystem :: "world \<Rightarrow> world" where
  "requestFilesystem w =
     (case priv_requestFilesystem w of
        (Resolved u, w1) \<Rightarrow> fire filesystem_ready NoDetail w1
      | (Rejected r, w1) \<Rightarrow> fire error (ErrorKey r) w1
      | (Pending, w1) \<Rightarrow> w1)"

subsection \<open>Usage and quota\<close>

text \<open>
  \<^verbatim>\<open>src/web-filesystem-behavior.js\<close>, lines 182 to 196. The error callback reads
  \<^verbatim>\<open>e.message\<close>, which throws inside the callback when \<^verbatim>\<open>e\<close> is \<^verbatim>\<open>undefined\<close>: nothing
  is fired then.
\<close>

definition web_getUsageAndQuota :: "world \<Rightarrow> world" where
  "web_getUsageAndQuota w =
     (case answer (issue QueryUsageAndQuota w) of
        (None, w1) \<Rightarrow> fire filesystem_usage (Usage (usageBytes w1) (quotaBytes w1)) w1
      | (Some NoReason, w1) \<Rightarrow> w1
      | (Some (Error m), w1) \<Rightarrow> fire error (MessagerKey m) w1)"

text \<open>
  \<^verbatim>\<open>src/sync-filesystem-behavior.js\<close>, lines 43 to 58. The callback of
  \<^verbatim>\<open>chrome.syncFileSystem.getUsageAndQuota\<close> reads \<^verbatim>\<open>info.usageBytes\<close> and nothing
  else; when the browser fails \<^verbatim>\<open>info\<close> is \<^verbatim>\<open>undefined\<close>, the read throws inside the
  callback and nothing is fired.
\<close>

definition sync_getUsageAndQuota :: "world \<Rightarrow> world" where
  "sync_getUsageAndQuota w =
     (case priv_requestFilesystem w of
        (Resolved u, w1) \<Rightarrow>
          (case answer (issue SyncGetUsageAndQuota w1) of
             (None, w2) \<Rightarrow> fire filesystem_usage (Usage (usageBytes w2) (quotaBytes w2)) w2
           | (Some r, w2) \<Rightarrow> w2)
      | (Rejected r, w1) \<Rightarrow> fire error (MessageKey r) w1
      | (Pending, w1) \<Rightarrow> w1)"

definition getUsageAndQuota :: "world \<Rightarrow> world" where
  "getUsageAndQuota w =
     (case backend (el w) of
        Persistent \<Rightarrow> web_getUsageAndQuota w
      | Synced \<Rightarrow> sync_getUsageAndQuota w)"

subsection \<open>\<^verbatim>\<open>getFile\<close>\<close>

text \<open>\<^verbatim>\<open>src/web-filesystem-behavior.js\<close>, lines 207 to 223.\<close>

definition web_getFile :: "world \<Rightarrow> entry outcome \<times> world" where
  "web_getFile w =
     (case priv_requestFilesystem w of
        (Resolved u, w1) \<Rightarrow> root_getFile (filename (el w1)) w1
      | (Rejected r, w1) \<Rightarrow> (Rejected r, w1)
      | (Pending, w1) \<Rightarrow> (Pending, w1))"

text \<open>
  The test both catch handlers of the synced behavior make:
  \<^verbatim>\<open>reason && reason.message && reason.message.indexOf('error code: -107') > 0\<close>.
\<close>

definition sentinel :: string where
  "sentinel = ''error code: -107''"

definition not_signed_in :: "reason \<Rightarrow> bool" where
  "not_signed_in r =
     (case r of
        NoReason \<Rightarrow> False
      | Error m \<Rightarrow> m \<noteq> [] \<and> indexOf m sentinel > 0)"

definition sign_in_message :: string where
  "sign_in_message = ''You must be signed in to the Chrome to use syncable storage''"

text \<open>
  \<^verbatim>\<open>src/sync-filesystem-behavior.js\<close>, lines 70 to 91. The \<^verbatim>\<open>catch\<close> sits on the
  promise of the mount; the failure callback of \<^verbatim>\<open>root.getFile\<close> calls \<^verbatim>\<open>reject\<close>
  itself.
\<close>

definition sync_getFile :: "world \<Rightarrow> entry outcome \<times> world" where
  "sync_getFile w =
     (case priv_requestFilesystem w of
        (Resolved u, w1) \<Rightarrow> root_getFile (filename (el w1)) w1
      | (Rejected r, w1) \<Rightarrow>
          (if not_signed_in r then (Rejected (Error sign_in_message), w1)
           else (Rejected r, w1))
      | (Pending, w1) \<Rightarrow> (Pending, w1))"

definition getFile :: "world \<Rightarrow> entry outcome \<times> world" where
  "getFile w =
     (case backend (el w) of
        Persistent \<Rightarrow> web_getFile w
      | Synced \<Rightarrow> sync_getFile w)"

subsection \<open>Writing\<close>

text \<open>\<^verbatim>\<open>_truncate\<close>, lines 326 to 338.\<close>

definition priv_truncate :: "entry \<Rightarrow> world \<Rightarrow> unit outcome \<times> world" where
  "priv_truncate fileEntry w =
     andThen (createWriter (name fileEntry) w) (\<lambda>u. writer_truncate (name fileEntry) 0)"

text \<open>
  \<^verbatim>\<open>_writeFileEntry\<close>, lines 344 to 365:
  \<^verbatim>\<open>
  if (typeof this.content === 'string') { toWrite = [this.content]; }
  else { toWrite = this.content; }
  var blob = new Blob(toWrite, {type: this.mime});
  fileWriter.write(blob);
  \<close>
  This runs inside the callback of \<^verbatim>\<open>createWriter\<close>, so when the constructor throws
  the promise is neither resolved nor rejected.
\<close>

definition toWrite :: "content \<Rightarrow> blobparts" where
  "toWrite c =
     (case c of Text s \<Rightarrow> Parts [s] | NoContent \<Rightarrow> Missing | NonString i \<Rightarrow> NotASequence)"

definition priv_writeFileEntry :: "entry \<Rightarrow> world \<Rightarrow> entry outcome \<times> world" where
  "priv_writeFileEntry fileEntry w =
     andThen (createWriter (name fileEntry) w)
       (\<lambda>u w1.
          (case new_Blob (toWrite (content (el w1))) (mime (el w1)) of
             None \<Rightarrow> (Pending, w1)
           | Some b \<Rightarrow>
               andThen (writer_write (name fileEntry) b w1) (\<lambda>u w2. (Resolved fileEntry, w2))))"

text \<open>\<^verbatim>\<open>writeFile\<close>, lines 257 to 264.\<close>

definition writeFile :: "world \<Rightarrow> world" where
  "writeFile w =
     (case andThen (andThen (andThen (getFile w) priv_truncate) (\<lambda>u. getFile))
             priv_writeFileEntry of
        (Resolved fileEntry, w1) \<Rightarrow> fire file_write NoDetail w1
      | (Rejected r, w1) \<Rightarrow> fire error (Raw r) w1
      | (Pending, w1) \<Rightarrow> w1)"

definition write' :: "world \<Rightarrow> world" where
  "write' w = writeFile w"

subsection \<open>The observers and the property setters\<close>

text \<open>\<^verbatim>\<open>_contentChanged\<close>, lines 235 to 239.\<close>

definition priv_contentChanged :: "world \<Rightarrow> world" where
  "priv_contentChanged w = (if auto (el w) \<and> filename (el w) \<noteq> [] then writeFile w else w)"

text \<open>
  Assigning \<^verbatim>\<open>this.content\<close>: Polymer stores the value and runs the observer when the
  value is not the one already there. (The \<^verbatim>\<open>content-changed\<close> event of
  \<^verbatim>\<open>notify: true\<close> is Polymer's, and is not logged.)
\<close>

definition set_content :: "content \<Rightarrow> world \<Rightarrow> world" where
  "set_content c w =
     (if content (el w) = c then w
      else priv_contentChanged (w\<lparr>el := (el w)\<lparr>content := c\<rparr>\<rparr>))"

definition set_auto :: "bool \<Rightarrow> world \<Rightarrow> world" where
  "set_auto b w = w\<lparr>el := (el w)\<lparr>auto := b\<rparr>\<rparr>"

text \<open>\<^verbatim>\<open>this.async(f)\<close> for the one callback the source defers, and the run of the deferred callbacks.\<close>

definition async :: "bool \<Rightarrow> world \<Rightarrow> world" where
  "async saved w = w\<lparr>tasks := tasks w @ [saved]\<rparr>"

definition run_async :: "world \<Rightarrow> world" where
  "run_async w = foldl (\<lambda>w1 saved. set_auto saved w1) (w\<lparr>tasks := []\<rparr>) (tasks w)"

subsection \<open>Reading\<close>

text \<open>\<^verbatim>\<open>_readFileContents\<close>, lines 304 to 319.\<close>

definition priv_readFileContents :: "entry \<Rightarrow> world \<Rightarrow> string outcome \<times> world" where
  "priv_readFileContents fileEntry w =
     andThen (entry_file (name fileEntry) w) (readAsText (name fileEntry))"

text \<open>
  \<^verbatim>\<open>readFile\<close>, lines 281 to 298:
  \<^verbatim>\<open>
  .then((result) => {
    var auto = this.auto;
    this.auto = false;
    this.content = result;
    this.async(() => { this.auto = auto; });
    this.fire('file-read', {content: result});
  })
  \<close>
\<close>

definition readFile :: "world \<Rightarrow> world" where
  "readFile w =
     (case andThen (getFile w) priv_readFileContents of
        (Resolved result, w1) \<Rightarrow>
          fire file_read (ContentKey result)
            (async (auto (el w1)) (set_content (Text result) (set_auto False w1)))
      | (Rejected r, w1) \<Rightarrow> fire error (Raw r) w1
      | (Pending, w1) \<Rightarrow> w1)"

definition read' :: "world \<Rightarrow> world" where
  "read' w = readFile w"

text \<open>\<^verbatim>\<open>_filenameChanged\<close>, lines 227 to 231, and the assignment of \<^verbatim>\<open>this.filename\<close>.\<close>

definition priv_filenameChanged :: "world \<Rightarrow> world" where
  "priv_filenameChanged w = (if auto (el w) \<and> filename (el w) \<noteq> [] then readFile w else w)"

definition set_filename :: "string \<Rightarrow> world \<Rightarrow> world" where
  "set_filename n w =
     (if filename (el w) = n then w
      else priv_filenameChanged (w\<lparr>el := (el w)\<lparr>filename := n\<rparr>\<rparr>))"

subsection \<open>Listing\<close>

text \<open>
  The loop of \<^verbatim>\<open>_listImpl\<close>, lines 389 to 403, over the pages the reader still holds:
  \<^verbatim>\<open>
  dirReader.readEntries(function(results) {
    if (!results.length) { context.fire('directory-read', {files: entries.sort()}); }
    else { entries = entries.concat(Array.from(results)); readEntries(); }
  }, function(reason) { context.fire('error', reason); });
  \<close>
\<close>

fun readEntries :: "entry list list \<Rightarrow> entry list \<Rightarrow> world \<Rightarrow> world" where
  "readEntries [] entries w =
     (case answer (issue ReadEntries w) of
        (Some r, w1) \<Rightarrow> fire error (Raw r) w1
      | (None, w1) \<Rightarrow> fire directory_read (FilesKey (array_sort entries)) w1)"
| "readEntries (results # pages) entries w =
     (case answer (issue ReadEntries w) of
        (Some r, w1) \<Rightarrow> fire error (Raw r) w1
      | (None, w1) \<Rightarrow>
          (if results = [] then fire directory_read (FilesKey (array_sort entries)) w1
           else readEntries pages (entries @ results) w1))"

text \<open>
  \<^verbatim>\<open>_listImpl\<close>, lines 383 to 405. Its promise is that of the mount: the callback of
  \<^verbatim>\<open>then\<close> starts the loop and returns nothing.
\<close>

definition priv_listImpl :: "world \<Rightarrow> unit outcome \<times> world" where
  "priv_listImpl w =
     andThen (priv_requestFilesystem w)
       (\<lambda>u w1.
          (Resolved (),
           readEntries (chop (page_sizes w1) (root_entries w1)) [] (issue CreateReader w1)))"

text \<open>\<^verbatim>\<open>list\<close> of \<^verbatim>\<open>src/web-filesystem-behavior.js\<close>, lines 370 to 375.\<close>

definition web_list :: "world \<Rightarrow> world" where
  "web_list w =
     (case priv_listImpl w of
        (Rejected r, w1) \<Rightarrow> fire error (Raw r) w1
      | (Resolved u, w1) \<Rightarrow> w1
      | (Pending, w1) \<Rightarrow> w1)"

text \<open>\<^verbatim>\<open>list\<close> of \<^verbatim>\<open>src/sync-filesystem-behavior.js\<close>, lines 96 to 106.\<close>

definition sync_list :: "world \<Rightarrow> world" where
  "sync_list w =
     (case priv_listImpl w of
        (Rejected r, w1) \<Rightarrow>
          (if not_signed_in r then fire error (Message sign_in_message) w1
           else fire error (Raw r) w1)
      | (Resolved u, w1) \<Rightarrow> w1
      | (Pending, w1) \<Rightarrow> w1)"

definition list' :: "world \<Rightarrow> world" where
  "list' w = (case backend (el w) of Persistent \<Rightarrow> web_list w | Synced \<Rightarrow> sync_list w)"

subsection \<open>Removing\<close>

text \<open>\<^verbatim>\<open>remove\<close>, lines 411 to 427.\<close>

definition remove' :: "world \<Rightarrow> world" where
  "remove' w =
     (if filename (el w) = [] then fire error (Raw (Error ''Filename not present.'')) w
      else
        (case getFile w of
           (Resolved fileEntry, w1) \<Rightarrow>
             (case entry_remove (name fileEntry) w1 of
                (Resolved u, w2) \<Rightarrow> fire removed EmptyObject w2
              | (Rejected r, w2) \<Rightarrow> fire error (Raw r) w2
              | (Pending, w2) \<Rightarrow> w2)
         | (Rejected r, w1) \<Rightarrow> fire error (Raw r) w1
         | (Pending, w1) \<Rightarrow> w1))"

subsection \<open>Runs\<close>

text \<open>
  What a caller can do with an element, one thing after the other: call a method, assign
  an attribute, or let the deferred callbacks run.
\<close>

datatype call =
    Do_requestFilesystem
  | Do_getUsageAndQuota
  | Do_getFile
  | Do_read
  | Do_readFile
  | Do_write
  | Do_writeFile
  | Do_list
  | Do_remove
  | Set_filename string
  | Set_content content
  | Set_auto bool
  | Set_quota int
  | Set_mime string
  | Run_async

fun perform :: "call \<Rightarrow> world \<Rightarrow> world" where
  "perform Do_requestFilesystem w = requestFilesystem w"
| "perform Do_getUsageAndQuota w = getUsageAndQuota w"
| "perform Do_getFile w = snd (getFile w)"
| "perform Do_read w = read' w"
| "perform Do_readFile w = readFile w"
| "perform Do_write w = write' w"
| "perform Do_writeFile w = writeFile w"
| "perform Do_list w = list' w"
| "perform Do_remove w = remove' w"
| "perform (Set_filename n) w = set_filename n w"
| "perform (Set_content c) w = set_content c w"
| "perform (Set_auto b) w = set_auto b w"
| "perform (Set_quota q) w = w\<lparr>el := (el w)\<lparr>quota := q\<rparr>\<rparr>"
| "perform (Set_mime m) w = w\<lparr>el := (el w)\<lparr>mime := m\<rparr>\<rparr>"
| "perform Run_async w = run_async w"

definition run :: "call list \<Rightarrow> world \<Rightarrow> world" where
  "run cs w = foldl (\<lambda>w1 c. perform c w1) w cs"

text \<open>
  The persistent mount callback by callback, for mounts that overlap: the call itself
  (up to the request for quota), the browser granting \<open>g\<close> bytes, the browser handing
  the filesystem over, and the browser refusing.
\<close>

datatype mount_event = Called | Granted int | Initialised | Refused reason

fun mount_step :: "world \<Rightarrow> mount_event \<Rightarrow> world" where
  "mount_step w Called =
     (if fileSystem (el w) \<noteq> None then w else issue (RequestQuota (quota (el w))) w)"
| "mount_step w (Granted g) = quota_granted g w"
| "mount_step w Initialised = (case new_handle w of (fs, w1) \<Rightarrow> onInit fs w1)"
| "mount_step w (Refused e) = w"

subsection \<open>Reading the log\<close>

text \<open>The events fired so far.\<close>

fun fired_of :: "action \<Rightarrow> (event \<times> detail) list" where
  "fired_of (Fire e d) = [(e, d)]"
| "fired_of a = []"

definition fired :: "world \<Rightarrow> (event \<times> detail) list" where
  "fired w = concat (map fired_of (log w))"

text \<open>The requests sent so far.\<close>

fun request_of :: "action \<Rightarrow> request list" where
  "request_of (Request r) = [r]"
| "request_of a = []"

definition requests :: "world \<Rightarrow> request list" where
  "requests w = concat (map request_of (log w))"

text \<open>The steps of a write: the truncation, the write of the blob, the \<^verbatim>\<open>file-write\<close> event.\<close>

fun is_write_step :: "action \<Rightarrow> bool" where
  "is_write_step (Request (Truncate n k)) = True"
| "is_write_step (Request (WriteBlob n b)) = True"
| "is_write_step (Fire file_write d) = True"
| "is_write_step a = False"

text \<open>The steps of a mount: its requests to the browser, and the write of the handle.\<close>

fun is_mount_step :: "action \<Rightarrow> bool" where
  "is_mount_step (Request (RequestQuota q)) = True"
| "is_mount_step (Request (RequestFileSystem g)) = True"
| "is_mount_step (Request SyncRequestFileSystem) = True"
| "is_mount_step (SetFileSystem fs) = True"
| "is_mount_step a = False"

fun is_handle_write :: "action \<Rightarrow> bool" where
  "is_handle_write (SetFileSystem fs) = True"
| "is_handle_write a = False"

definition handle_writes :: "world \<Rightarrow> nat" where
  "handle_writes w = length (filter is_handle_write (log w))"

text \<open>What a mount that succeeds adds to the log.\<close>

definition mounting :: "world \<Rightarrow> action list" where
  "mounting w =
     (case fileSystem (el w) of
        Some fs \<Rightarrow> []
      | None \<Rightarrow>
          (case backend (el w) of
             Persistent \<Rightarrow>
               [Request (RequestQuota (quota (el w))),
                SetGrantedQuota (grant w (quota (el w))),
                Request (RequestFileSystem (grant w (quota (el w)))),
                SetFileSystem (Suc (handles w))]
           | Synced \<Rightarrow> [Request SyncRequestFileSystem, SetFileSystem (Suc (handles w))]))"

subsection \<open>What a step does to the mount\<close>

definition mount_view :: "world \<Rightarrow> action list" where
  "mount_view w = filter is_mount_step (log w)"

text \<open>A step that leaves the handle alone and adds no step of a mount to the log.\<close>

definition same_mount :: "world \<Rightarrow> world \<Rightarrow> bool" where
  "same_mount w w1 \<longleftrightarrow> fileSystem (el w1) = fileSystem (el w) \<and> mount_view w1 = mount_view w"

text \<open>
  A step that, from an element that holds a handle, is such a step; and from one that
  holds none, either writes no handle and leaves the element without one, or writes
  one handle and leaves the element with one.
\<close>

definition one_mount :: "world \<Rightarrow> world \<Rightarrow> bool" where
  "one_mount w w1 \<longleftrightarrow>
     (case fileSystem (el w) of
        Some fs \<Rightarrow> same_mount w w1
      | None \<Rightarrow>
          (fileSystem (el w1) = None \<and> handle_writes w1 = handle_writes w) \<or>
          (fileSystem (el w1) \<noteq> None \<and> handle_writes w1 = Suc (handle_writes w)))"

subsection \<open>Example worlds\<close>

text \<open>
  An element as it is created (the \<^verbatim>\<open>value\<close>s of \<^verbatim>\<open>properties\<close>, lines 54 to 132), on
  an empty filesystem and a browser that grants what is asked and never fails.
\<close>

definition created :: "backend \<Rightarrow> world" where
  "created b =
     \<lparr>el = \<lparr>backend = b, quota = 0, grantedQuota = 0, filename = [], auto = False,
             content = NoContent, mime = ''text/plain'', fileSystem = None\<rparr>,
      disk = [], faults = [], grant = (\<lambda>q. q), usageBytes = 0, quotaBytes = 0,
      page_sizes = [], handles = 0, tasks = [], log = []\<rparr>"

text \<open>The same with a quota of 1024 bytes and the file name \<^verbatim>\<open>a\<close>.\<close>

definition named :: "backend \<Rightarrow> world" where
  "named b = (created b)\<lparr>el := (el (created b))\<lparr>quota := 1024, filename := ''a''\<rparr>\<rparr>"

text \<open>
  The file \<^verbatim>\<open>a\<close> holds eleven bytes and the content is the two bytes \<^verbatim>\<open>hi\<close>: after the
  write the file holds \<^verbatim>\<open>hi\<close>.
\<close>

definition long_file :: world where
  "long_file =
     (named Persistent)\<lparr>el := (el (named Persistent))\<lparr>content := Text ''hi''\<rparr>,
                        disk := [(''a'', ''hello world'')]\<rparr>"

text \<open>
  Mirror mode is on, and the file \<^verbatim>\<open>a\<close> holds \<^verbatim>\<open>xyz\<close>.
\<close>

definition mirror :: world where
  "mirror =
     (named Persistent)\<lparr>el := (el (named Persistent))\<lparr>auto := True\<rparr>,
                        disk := [(''a'', ''xyz'')]\<rparr>"

text \<open>
  Five files in the root, in the order \<^verbatim>\<open>c\<close>, \<^verbatim>\<open>a\<close>, \<^verbatim>\<open>e\<close>, \<^verbatim>\<open>b\<close>, \<^verbatim>\<open>d\<close>, and a
  directory reader that hands them out in pages of two, two and one.
\<close>

definition five_files :: world where
  "five_files =
     (named Persistent)\<lparr>disk := [(''c'', []), (''a'', []), (''e'', []), (''b'', []), (''d'', [])],
                        page_sizes := [1, 1]\<rparr>"

text \<open>The browser refuses the first request with the error \<^verbatim>\<open>denied\<close>.\<close>

definition refusing :: "backend \<Rightarrow> world" where
  "refusing b = (named b)\<lparr>faults := [Some (Error ''denied'')]\<rparr>"

text \<open>The browser grants the quota and then refuses the filesystem.\<close>

definition mount_refused :: world where
  "mount_refused = (named Persistent)\<lparr>faults := [None, Some (Error ''SecurityError'')]\<rparr>"




section \<open>Properties\<close>

subsection \<open>Unfolding\<close>

lemmas browser_defs = issue_def answer_def fire_def new_handle_def root_getFile_def
  createWriter_def writer_truncate_def writer_write_def entry_file_def readAsText_def
  entry_remove_def andThen_def

lemmas mount_defs = priv_setFileSystem_def priv_setGrantedQuota_def onInit_def
  quota_granted_def web_requestFilesystem_def sync_requestFilesystem_def
  priv_requestFilesystem_def

lemmas file_defs = web_getFile_def sync_getFile_def getFile_def priv_truncate_def toWrite_def
  priv_writeFileEntry_def priv_readFileContents_def

lemmas sample_defs = created_def named_def

subsection \<open>What every request to the browser leaves alone\<close>

text \<open>
  Whatever the browser answers, a request adds itself to the log and nothing else, and
  touches neither the element nor the deferred callbacks.
\<close>

lemma answer_frame [simp]:
  "el (snd (answer w)) = el w" "log (snd (answer w)) = log w" "tasks (snd (answer w)) = tasks w"
  "disk (snd (answer w)) = disk w"
  by (simp_all add: answer_def split: list.split)

lemma root_getFile_frame [simp]:
  "el (snd (root_getFile n w)) = el w"
  "tasks (snd (root_getFile n w)) = tasks w"
  "log (snd (root_getFile n w)) = log w @ [Request (GetFile n)]"
  "fst (root_getFile n w) \<noteq> Pending"
  by (simp_all add: root_getFile_def issue_def answer_def split: list.split option.split)

lemma createWriter_frame [simp]:
  "el (snd (createWriter n w)) = el w"
  "tasks (snd (createWriter n w)) = tasks w"
  "disk (snd (createWriter n w)) = disk w"
  "log (snd (createWriter n w)) = log w @ [Request (CreateWriter n)]"
  "fst (createWriter n w) \<noteq> Pending"
  by (simp_all add: createWriter_def issue_def answer_def split: list.split option.split)

lemma writer_truncate_frame [simp]:
  "el (snd (writer_truncate n k w)) = el w"
  "tasks (snd (writer_truncate n k w)) = tasks w"
  "log (snd (writer_truncate n k w)) = log w @ [Request (Truncate n k)]"
  "fst (writer_truncate n k w) \<noteq> Pending"
  by (simp_all add: writer_truncate_def issue_def answer_def split: list.split option.split)

lemma writer_write_frame [simp]:
  "el (snd (writer_write n b w)) = el w"
  "tasks (snd (writer_write n b w)) = tasks w"
  "log (snd (writer_write n b w)) = log w @ [Request (WriteBlob n b)]"
  "fst (writer_write n b w) \<noteq> Pending"
  by (simp_all add: writer_write_def issue_def answer_def split: list.split option.split)

lemma entry_file_frame [simp]:
  "el (snd (entry_file n w)) = el w"
  "tasks (snd (entry_file n w)) = tasks w"
  "disk (snd (entry_file n w)) = disk w"
  "log (snd (entry_file n w)) = log w @ [Request (GetFileOf n)]"
  "fst (entry_file n w) \<noteq> Pending"
  by (simp_all add: entry_file_def issue_def answer_def split: list.split option.split)

lemma readAsText_frame [simp]:
  "el (snd (readAsText n bs w)) = el w"
  "tasks (snd (readAsText n bs w)) = tasks w"
  "disk (snd (readAsText n bs w)) = disk w"
  "log (snd (readAsText n bs w)) = log w @ [Request (ReadAsText n)]"
  "fst (readAsText n bs w) \<noteq> Pending"
  by (simp_all add: readAsText_def issue_def answer_def split: list.split option.split)

lemma entry_remove_frame [simp]:
  "el (snd (entry_remove n w)) = el w"
  "tasks (snd (entry_remove n w)) = tasks w"
  "log (snd (entry_remove n w)) = log w @ [Request (Remove n)]"
  "fst (entry_remove n w) \<noteq> Pending"
  by (simp_all add: entry_remove_def issue_def answer_def split: list.split option.split)

lemma fire_frame [simp]:
  "el (fire e d w) = el w" "tasks (fire e d w) = tasks w" "disk (fire e d w) = disk w"
  "log (fire e d w) = log w @ [Fire e d]" "faults (fire e d w) = faults w"
  by (simp_all add: fire_def)

lemma andThen_fst:
  "fst (andThen p f) =
     (case fst p of Resolved v \<Rightarrow> fst (f v (snd p)) | Rejected r \<Rightarrow> Rejected r | Pending \<Rightarrow> Pending)"
  by (cases p) (simp add: andThen_def split: outcome.split)

lemma andThen_snd:
  "snd (andThen p f) =
     (case fst p of Resolved v \<Rightarrow> snd (f v (snd p)) | Rejected r \<Rightarrow> snd p | Pending \<Rightarrow> snd p)"
  by (cases p) (simp add: andThen_def split: outcome.split)

subsection \<open>The mount\<close>

lemma mount_frame [simp]:
  "tasks (snd (priv_requestFilesystem w)) = tasks w"
  "disk (snd (priv_requestFilesystem w)) = disk w"
  "backend (el (snd (priv_requestFilesystem w))) = backend (el w)"
  "quota (el (snd (priv_requestFilesystem w))) = quota (el w)"
  "filename (el (snd (priv_requestFilesystem w))) = filename (el w)"
  "auto (el (snd (priv_requestFilesystem w))) = auto (el w)"
  "content (el (snd (priv_requestFilesystem w))) = content (el w)"
  "mime (el (snd (priv_requestFilesystem w))) = mime (el w)"
  "fst (priv_requestFilesystem w) \<noteq> Pending"
  by (cases "backend (el w)";
      simp add: mount_defs issue_def answer_def new_handle_def split: list.split option.split)+

lemma mount_views [simp]:
  "filter is_write_step (log (snd (priv_requestFilesystem w))) = filter is_write_step (log w)"
  "fired (snd (priv_requestFilesystem w)) = fired w"
  by (cases "backend (el w)";
      simp add: fired_def mount_defs issue_def answer_def new_handle_def
        split: list.split option.split)+

lemma mount_held:
  "fileSystem (el w) = Some fs \<Longrightarrow> priv_requestFilesystem w = (Resolved (), w)"
  by (cases "backend (el w)") (simp_all add: mount_defs)

lemma mount_Resolved:
  "fst (priv_requestFilesystem w) = Resolved u \<Longrightarrow>
     fileSystem (el (snd (priv_requestFilesystem w))) \<noteq> None"
  by (cases "backend (el w)")
     (auto simp add: mount_defs issue_def answer_def new_handle_def
        split: list.splits option.splits if_splits)

subsection \<open>\<open>getFile\<close>\<close>

lemma getFile_unfold:
  "getFile w =
     (case fst (priv_requestFilesystem w) of
        Resolved u \<Rightarrow> root_getFile (filename (el w)) (snd (priv_requestFilesystem w))
      | Rejected r \<Rightarrow>
          (Rejected (if backend (el w) = Synced \<and> not_signed_in r
                     then Error sign_in_message else r),
           snd (priv_requestFilesystem w))
      | Pending \<Rightarrow> (Pending, snd (priv_requestFilesystem w)))"
  by (simp add: file_defs case_prod_beta split: outcome.split backend.split)

lemma getFile_frame [simp]:
  "tasks (snd (getFile w)) = tasks w"
  "backend (el (snd (getFile w))) = backend (el w)"
  "quota (el (snd (getFile w))) = quota (el w)"
  "filename (el (snd (getFile w))) = filename (el w)"
  "auto (el (snd (getFile w))) = auto (el w)"
  "content (el (snd (getFile w))) = content (el w)"
  "mime (el (snd (getFile w))) = mime (el w)"
  "fst (getFile w) \<noteq> Pending"
  by (simp_all add: getFile_unfold split: outcome.split)

lemma getFile_views [simp]:
  "filter is_write_step (log (snd (getFile w))) = filter is_write_step (log w)"
  "fired (snd (getFile w)) = fired w"
  using mount_views [of w]
  by (simp_all add: getFile_unfold fired_def split: outcome.split)

lemma getFile_Resolved:
  assumes "fst (getFile w) = Resolved e"
  shows "e = FileEntry (filename (el w)) \<and> map_of (disk (snd (getFile w))) (filename (el w)) \<noteq> None \<and>
         fileSystem (el (snd (getFile w))) \<noteq> None"
  using assms mount_Resolved [of w]
  by (auto simp add: getFile_unfold root_getFile_def issue_def answer_def map_add_def
        split: outcome.splits list.splits option.splits)

subsection \<open>Writing and reading back\<close>







text \<open>
  What the truncation is for: a write alone, on a file longer than the blob, leaves the
  end of the old bytes in place.
\<close>

lemma write_alone_leaves_residue:
  "map_of (disk (snd (writer_write ''a'' (Blob ''hi'' ''text/plain'') long_file))) ''a'' =
     Some ''hillo world''"
  by (simp add: long_file_def sample_defs writer_write_def issue_def answer_def)

text \<open>
  The second \<^verbatim>\<open>getFile\<close> waits for the truncation: when the truncation is refused,
  nothing follows it but the \<^verbatim>\<open>error\<close> event.
\<close>

lemma refused_truncation_ends_the_write:
  assumes "fileSystem (el w) = Some fs" and "faults w = None # None # Some r # rest"
  shows "log (writeFile w) = log w @
           [Request (GetFile (filename (el w))), Request (CreateWriter (filename (el w))),
            Request (Truncate (filename (el w)) 0), Fire error (Raw r)]"
  using assms
  by (cases "backend (el w)")
     (simp_all add: writeFile_def browser_defs mount_defs file_defs split: option.split)

text \<open>
  A content that is neither a string nor a sequence: the constructor of the blob throws
  inside the callback of \<^verbatim>\<open>createWriter\<close>, the promise stays pending, and the write
  ends there, without an event.
\<close>

lemma object_content_ends_the_write:
  assumes "faults w = []" and "content (el w) = NonString i"
  shows "log (writeFile w) = log w @ mounting w @
           [Request (GetFile (filename (el w))), Request (CreateWriter (filename (el w))),
            Request (Truncate (filename (el w)) 0), Request (GetFile (filename (el w))),
            Request (CreateWriter (filename (el w)))]"
  using assms
  by (cases "backend (el w)"; cases "fileSystem (el w)")
     (simp_all add: writeFile_def mounting_def browser_defs mount_defs file_defs
        AList.update_conv' split: option.split)





subsection \<open>Removing\<close>

lemma entry_remove_Resolved:
  "fst (entry_remove n w) = Resolved u \<Longrightarrow> map_of (disk (snd (entry_remove n w))) n = None"
  by (auto simp add: entry_remove_def issue_def answer_def AList.delete_conv'
        split: list.splits option.splits)

lemma remove_unfold:
  "filename (el w) \<noteq> [] \<Longrightarrow>
   remove' w =
     (case fst (getFile w) of
        Resolved e \<Rightarrow>
          (case fst (entry_remove (name e) (snd (getFile w))) of
             Resolved u \<Rightarrow> fire removed EmptyObject (snd (entry_remove (name e) (snd (getFile w))))
           | Rejected r \<Rightarrow> fire error (Raw r) (snd (entry_remove (name e) (snd (getFile w))))
           | Pending \<Rightarrow> snd (entry_remove (name e) (snd (getFile w))))
      | Rejected r \<Rightarrow> fire error (Raw r) (snd (getFile w))
      | Pending \<Rightarrow> snd (getFile w))"
  by (simp add: remove'_def case_prod_beta split: outcome.split)

lemma remove_ok:
  assumes "faults w = []" and "filename (el w) \<noteq> []"
  shows "log (remove' w) = log w @ mounting w @
           [Request (GetFile (filename (el w))), Request (Remove (filename (el w))),
            Fire removed EmptyObject]"
  using assms
  by (cases "backend (el w)"; cases "fileSystem (el w)")
     (simp_all add: remove'_def mounting_def browser_defs mount_defs file_defs
        split: option.split)

lemma remove_any:
  assumes "filename (el w) \<noteq> []"
  shows "(fired (remove' w) = fired w @ [(removed, EmptyObject)] \<and>
          last (requests (remove' w)) = Remove (filename (el w)) \<and>
          map_of (disk (remove' w)) (filename (el w)) = None) \<or>
         (\<exists>r. fired (remove' w) = fired w @ [(error, Raw r)])"
proof (cases "fst (getFile w)")
  case (Resolved e)
  note e = getFile_Resolved [OF Resolved]
  let ?w1 = "snd (getFile w)"
  show ?thesis
  proof (cases "fst (entry_remove (filename (el w)) ?w1)")
    case (Resolved u)
    from entry_remove_Resolved [OF this] show ?thesis
      using assms \<open>fst (getFile w) = Resolved e\<close> e Resolved getFile_views(2) [of w]
      by (simp add: remove_unfold fired_def requests_def)
  next
    case (Rejected r)
    then show ?thesis
      using assms \<open>fst (getFile w) = Resolved e\<close> e getFile_views(2) [of w]
      by (simp add: remove_unfold fired_def)
  next
    case Pending
    then show ?thesis by simp
  qed
next
  case (Rejected r)
  then show ?thesis
    using assms getFile_views(2) [of w] by (simp add: remove_unfold fired_def)
next
  case Pending
  then show ?thesis by simp
qed

text \<open>
  C7. With no file name, \<open>remove\<close> fires the error \<^verbatim>\<open>Filename not present.\<close> and does
  nothing else: no request goes to the browser. With a file name it fires exactly one
  event, \<^verbatim>\<open>removed\<close> or \<^verbatim>\<open>error\<close> with the reason of the failure; \<^verbatim>\<open>removed\<close> only
  after the request to remove the file, and with the file gone. When the browser
  serves the call without a failure, the call is the mount (if needed), \<^verbatim>\<open>getFile\<close>,
  the removal, and \<^verbatim>\<open>removed\<close>.
\<close>

theorem remove_needs_a_filename:
  "(filename (el w) = [] \<longrightarrow>
      remove' w = fire error (Raw (Error ''Filename not present.'')) w \<and>
      requests (remove' w) = requests w \<and>
      fired (remove' w) = fired w @ [(error, Raw (Error ''Filename not present.''))]) \<and>
   (filename (el w) \<noteq> [] \<longrightarrow>
      ((fired (remove' w) = fired w @ [(removed, EmptyObject)] \<and>
        last (requests (remove' w)) = Remove (filename (el w)) \<and>
        map_of (disk (remove' w)) (filename (el w)) = None) \<or>
       (\<exists>r. fired (remove' w) = fired w @ [(error, Raw r)])) \<and>
      (faults w = [] \<longrightarrow>
         log (remove' w) = log w @ mounting w @
           [Request (GetFile (filename (el w))), Request (Remove (filename (el w))),
            Fire removed EmptyObject]))"
  using remove_any [of w] remove_ok [of w]
  by (simp add: remove'_def requests_def fired_def)

theorem remove_needs_a_filename_witness:
  "filename (el (created Persistent)) = [] \<and>
   log (remove' (created Persistent)) = [Fire error (Raw (Error ''Filename not present.''))] \<and>
   filename (el (named Persistent)) \<noteq> [] \<and> faults (named Persistent) = [] \<and>
   log (remove' (named Persistent)) =
     [Request (RequestQuota 1024), SetGrantedQuota 1024, Request (RequestFileSystem 1024),
      SetFileSystem 1, Request (GetFile ''a''), Request (Remove ''a''),
      Fire removed EmptyObject]"
proof -
  have c: "filename (el (created Persistent)) = []" "log (created Persistent) = []"
    by (simp_all add: sample_defs)
  have n: "filename (el (named Persistent)) = ''a''" "faults (named Persistent) = []"
    "log (named Persistent) = []"
    "mounting (named Persistent) =
       [Request (RequestQuota 1024), SetGrantedQuota 1024, Request (RequestFileSystem 1024),
        SetFileSystem 1]"
    by (simp_all add: sample_defs mounting_def)
  show ?thesis
    using remove_needs_a_filename [of "created Persistent"]
      remove_needs_a_filename [of "named Persistent"] c n
    by simp
qed

lemma getFile_creates:
  assumes "faults w = []" and "map_of (disk w) (filename (el w)) = None"
  shows "fst (getFile w) = Resolved (FileEntry (filename (el w))) \<and>
         faults (snd (getFile w)) = [] \<and>
         map_of (disk (snd (getFile w))) (filename (el w)) = Some [] \<and>
         log (snd (getFile w)) = log w @ mounting w @ [Request (GetFile (filename (el w)))]"
  using assms
  by (cases "backend (el w)"; cases "fileSystem (el w)")
     (simp_all add: mounting_def browser_defs mount_defs file_defs map_add_def)

text \<open>
  C10. The file name is not empty and names no file, and the browser serves the call
  without a failure. Then \<^verbatim>\<open>getFile\<close>, which asks with \<^verbatim>\<open>create: true\<close>, creates the
  file, empty; \<open>remove\<close> goes on from there, removes it and fires \<^verbatim>\<open>removed\<close>, and no
  \<^verbatim>\<open>error\<close>.
\<close>

theorem remove_creates_then_deletes:
  assumes "faults w = []" and "filename (el w) \<noteq> []"
    and "map_of (disk w) (filename (el w)) = None"
  shows "fst (getFile w) = Resolved (FileEntry (filename (el w))) \<and>
         map_of (disk (snd (getFile w))) (filename (el w)) = Some [] \<and>
         remove' w =
           fire removed EmptyObject (snd (entry_remove (filename (el w)) (snd (getFile w)))) \<and>
         map_of (disk (remove' w)) (filename (el w)) = None \<and>
         log (remove' w) = log w @ mounting w @
           [Request (GetFile (filename (el w))), Request (Remove (filename (el w))),
            Fire removed EmptyObject] \<and>
         fired (remove' w) = fired w @ [(removed, EmptyObject)]"
proof -
  note g = getFile_creates [OF assms(1,3)]
  let ?w1 = "snd (getFile w)"
  have r: "fst (entry_remove (filename (el w)) ?w1) = Resolved ()"
    using g by (simp add: entry_remove_def issue_def answer_def)
  have f: "fired (remove' w) = fired w @ [(removed, EmptyObject)]"
    using g r assms(2) getFile_views(2) [of w] by (simp add: remove_unfold fired_def)
  from entry_remove_Resolved [OF r] show ?thesis
    using g r assms(2) remove_ok [OF assms(1,2)] f
    by (simp add: remove_unfold)
qed

theorem remove_creates_then_deletes_witness:
  "faults (named Synced) = [] \<and> filename (el (named Synced)) \<noteq> [] \<and>
   map_of (disk (named Synced)) (filename (el (named Synced))) = None \<and>
   map_of (disk (snd (getFile (named Synced)))) ''a'' = Some [] \<and>
   map_of (disk (remove' (named Synced))) ''a'' = None \<and>
   fired (remove' (named Synced)) = [(removed, EmptyObject)]"
proof -
  have h: "faults (named Synced) = []" "filename (el (named Synced)) \<noteq> []"
    "map_of (disk (named Synced)) (filename (el (named Synced))) = None"
    by (simp_all add: sample_defs)
  have n: "filename (el (named Synced)) = ''a''" "fired (named Synced) = []"
    by (simp_all add: sample_defs fired_def)
  note t = remove_creates_then_deletes [OF h, unfolded n append_Nil]
  show ?thesis using h t by blast
qed

subsection \<open>Reading in mirror mode\<close>

lemma readFileContents_frame [simp]:
  "el (snd (priv_readFileContents e w)) = el w"
  "tasks (snd (priv_readFileContents e w)) = tasks w"
  "fst (priv_readFileContents e w) \<noteq> Pending"
  "filter is_write_step (log (snd (priv_readFileContents e w))) = filter is_write_step (log w)"
  "fired (snd (priv_readFileContents e w)) = fired w"
  by (simp_all add: priv_readFileContents_def andThen_fst andThen_snd fired_def
        split: outcome.split)

text \<open>While \<open>auto\<close> is off, assigning the content is the assignment and nothing else.\<close>

lemma set_content_suspended:
  "set_content c (set_auto False w) = w\<lparr>el := (el w)\<lparr>auto := False, content := c\<rparr>\<rparr>"
  by (simp add: set_content_def set_auto_def priv_contentChanged_def)

text \<open>While it is on, on an element with a file name, a new content is written.\<close>

lemma set_content_mirrors:
  assumes "auto (el w)" and "filename (el w) \<noteq> []" and "content (el w) \<noteq> c"
  shows "set_content c w = writeFile (w\<lparr>el := (el w)\<lparr>content := c\<rparr>\<rparr>)"
  using assms by (simp add: set_content_def priv_contentChanged_def)

lemma readFile_unfold:
  "readFile w =
     (case fst (andThen (getFile w) priv_readFileContents) of
        Resolved result \<Rightarrow>
          fire file_read (ContentKey result)
            (async (auto (el w))
               ((snd (andThen (getFile w) priv_readFileContents))
                  \<lparr>el := (el (snd (andThen (getFile w) priv_readFileContents)))
                     \<lparr>auto := False, content := Text result\<rparr>\<rparr>))
      | Rejected r \<Rightarrow> fire error (Raw r) (snd (andThen (getFile w) priv_readFileContents))
      | Pending \<Rightarrow> snd (andThen (getFile w) priv_readFileContents))"
  by (simp add: readFile_def case_prod_beta set_content_suspended andThen_snd
        split: outcome.split)

lemma read_chain_frame [simp]:
  "tasks (snd (andThen (getFile w) priv_readFileContents)) = tasks w"
  "filter is_write_step (log (snd (andThen (getFile w) priv_readFileContents))) =
     filter is_write_step (log w)"
  "fired (snd (andThen (getFile w) priv_readFileContents)) = fired w"
  "fst (andThen (getFile w) priv_readFileContents) \<noteq> Pending"
  by (simp_all add: andThen_snd andThen_fst split: outcome.split)

lemma readFile_no_write:
  "filter is_write_step (log (readFile w)) = filter is_write_step (log w)"
  by (simp add: readFile_unfold async_def split: outcome.split)

lemma readFile_fired:
  "fired (readFile w) = fired w @ [(file_read, ContentKey s)] \<longleftrightarrow>
     fst (andThen (getFile w) priv_readFileContents) = Resolved s"
  using read_chain_frame(3,4) [of w]
  by (simp add: readFile_unfold async_def fired_def split: outcome.split)

lemma readFile_Resolved:
  assumes "fst (andThen (getFile w) priv_readFileContents) = Resolved s"
  shows "content (el (readFile w)) = Text s \<and> \<not> auto (el (readFile w)) \<and>
         tasks (readFile w) = tasks w @ [auto (el w)]"
  using assms by (simp add: readFile_unfold async_def)

lemma run_async_last:
  "auto (el (run_async (w\<lparr>tasks := ts @ [b]\<rparr>))) = b"
  by (simp add: run_async_def set_auto_def)

lemma run_async_tasks:
  "tasks w = ts @ [b] \<Longrightarrow> auto (el (run_async w)) = b"
  by (simp add: run_async_def set_auto_def)

text \<open>
  C6. Mirror mode is on. Whatever the browser answers, \<open>readFile\<close> adds no step of a
  write to the log: no truncation, no write of a blob, no \<^verbatim>\<open>file-write\<close>. When it
  ends with \<^verbatim>\<open>file-read\<close> carrying \<open>s\<close>, the content attribute has been assigned \<open>s\<close>,
  \<open>auto\<close> is off, and one more deferred callback is waiting, which turns \<open>auto\<close> on
  again when the deferred callbacks run.
\<close>

theorem readFile_never_writes_back:
  assumes "auto (el w)"
  shows "filter is_write_step (log (readFile w)) = filter is_write_step (log w) \<and>
         (\<forall>s. fired (readFile w) = fired w @ [(file_read, ContentKey s)] \<longrightarrow>
            content (el (readFile w)) = Text s \<and>
            \<not> auto (el (readFile w)) \<and>
            tasks (readFile w) = tasks w @ [True] \<and>
            auto (el (run_async (readFile w))))"
proof -
  have "content (el (readFile w)) = Text s \<and> \<not> auto (el (readFile w)) \<and>
        tasks (readFile w) = tasks w @ [True] \<and> auto (el (run_async (readFile w)))"
    if f: "fired (readFile w) = fired w @ [(file_read, ContentKey s)]" for s
  proof -
    have "fst (andThen (getFile w) priv_readFileContents) = Resolved s"
      using f by (simp add: readFile_fired)
    from readFile_Resolved [OF this] show ?thesis
      using assms by (simp add: run_async_tasks)
  qed
  then show ?thesis using readFile_no_write [of w] by blast
qed

theorem readFile_never_writes_back_witness:
  "auto (el mirror) \<and>
   fired (readFile mirror) = fired mirror @ [(file_read, ContentKey ''xyz'')] \<and>
   filter is_write_step (log (readFile mirror)) = [] \<and>
   content (el mirror) = NoContent \<and>
   content (el (readFile mirror)) = Text ''xyz'' \<and>
   \<not> auto (el (readFile mirror)) \<and>
   auto (el (run_async (readFile mirror))) \<and>
   filter is_write_step (log (set_content (Text ''xyz'') mirror)) =
     [Request (Truncate ''a'' 0), Request (WriteBlob ''a'' (Blob ''xyz'' ''text/plain'')),
      Fire file_write NoDetail]"
proof -
  have a: "auto (el mirror)" "log mirror = []" "content (el mirror) = NoContent"
    by (simp_all add: mirror_def sample_defs)
  have f: "fired (readFile mirror) = fired mirror @ [(file_read, ContentKey ''xyz'')]"
    by (simp add: mirror_def sample_defs fired_def readFile_def set_content_def set_auto_def
          async_def priv_contentChanged_def browser_defs mount_defs file_defs)
  have s: "filter is_write_step (log (set_content (Text ''xyz'') mirror)) =
     [Request (Truncate ''a'' 0), Request (WriteBlob ''a'' (Blob ''xyz'' ''text/plain'')),
      Fire file_write NoDetail]"
    by (simp add: mirror_def sample_defs writeFile_def set_content_def
          priv_contentChanged_def browser_defs mount_defs file_defs)
  from readFile_never_writes_back [OF a(1)] show ?thesis
    using a f s by simp
qed


subsection \<open>Listing\<close>

lemma array_sort_keeps_order: "array_sort es = es"
proof (induction es)
  case Nil
  then show ?case by (simp add: array_sort_def)
next
  case (Cons e es)
  then show ?case
    by (cases es) (simp_all add: array_sort_def entry_toString_def)
qed

lemma concat_chop: "concat (chop ns xs) = xs"
  by (induction ns xs rule: chop.induct) simp_all

lemma chop_no_empty_page: "[] \<notin> set (chop ns xs)"
  by (induction ns xs rule: chop.induct) simp_all

lemma readEntries_ok:
  assumes "faults w = []" and "[] \<notin> set pages"
  shows "readEntries pages entries w =
           fire directory_read (FilesKey (entries @ concat pages))
             (w\<lparr>log := log w @ replicate (Suc (length pages)) (Request ReadEntries)\<rparr>)"
  using assms
proof (induction pages arbitrary: entries w)
  case Nil
  then show ?case
    by (simp add: issue_def answer_def array_sort_keeps_order)
next
  case (Cons p pages)
  have "faults (w\<lparr>log := log w @ [Request ReadEntries]\<rparr>) = []" using Cons.prems by simp
  moreover have "p \<noteq> []" "[] \<notin> set pages" using Cons.prems by auto
  ultimately show ?case
    using Cons.IH [of "w\<lparr>log := log w @ [Request ReadEntries]\<rparr>" "entries @ p"] Cons.prems(1)
    by (simp add: issue_def answer_def)
qed

text \<open>
  When the browser serves it without a failure, \<open>list\<close> reads a page more than the
  reader holds and fires \<^verbatim>\<open>directory-read\<close> with every entry of the root, in the
  order of the directory.
\<close>

lemma list_ok:
  assumes "faults w = []"
  shows "log (list' w) = log w @ mounting w @ [Request CreateReader] @
           replicate (Suc (length (chop (page_sizes w) (root_entries w)))) (Request ReadEntries) @
           [Fire directory_read (FilesKey (root_entries w))]"
  using assms
  by (cases "backend (el w)"; cases "fileSystem (el w)")
     (simp_all add: list'_def web_list_def sync_list_def priv_listImpl_def mounting_def
        mount_defs issue_def answer_def new_handle_def andThen_def root_entries_def
        readEntries_ok chop_no_empty_page concat_chop fire_def)

text \<open>
  C3. Five files, paged two, two and one: \<open>list\<close> reads four pages and fires
  \<^verbatim>\<open>directory-read\<close> with the five entries, in the order of the directory, which is not
  the order of their names. \<^verbatim>\<open>entries.sort()\<close> compares the entries as strings, and
  every entry is the string \<^verbatim>\<open>[object FileEntry]\<close>.
\<close>

theorem list_is_not_sorted_by_name:
  "log (list' five_files) =
     [Request (RequestQuota 1024), SetGrantedQuota 1024, Request (RequestFileSystem 1024),
      SetFileSystem 1, Request CreateReader, Request ReadEntries, Request ReadEntries,
      Request ReadEntries, Request ReadEntries,
      Fire directory_read
        (FilesKey [FileEntry ''c'', FileEntry ''a'', FileEntry ''e'', FileEntry ''b'',
                   FileEntry ''d''])] \<and>
   \<not> sorted (map name [FileEntry ''c'', FileEntry ''a'', FileEntry ''e'', FileEntry ''b'',
                        FileEntry ''d''])"
proof -
  have f: "faults five_files = []" by (simp add: five_files_def sample_defs)
  have "\<not> ''c'' \<le> ''a''"
    by (simp add: less_eq_char_def)
  then show ?thesis
    using list_ok [OF f]
    by (simp add: five_files_def sample_defs mounting_def root_entries_def)
qed

subsection \<open>Usage and quota\<close>

text \<open>
  C8. The browser refuses the query for usage and quota with the error \<^verbatim>\<open>denied\<close>. The
  persistent behavior fires \<^verbatim>\<open>error\<close> with \<^verbatim>\<open>{messager: 'denied'}\<close>, the message under
  the key \<^verbatim>\<open>messager\<close>; the synced one, whose mount is what fails, fires it with the
  error under the key \<^verbatim>\<open>message\<close>. Neither is the error itself, or the error under
  the key \<^verbatim>\<open>error\<close>.
\<close>

theorem usage_error_detail:
  "fired (getUsageAndQuota (refusing Persistent)) = [(error, MessagerKey ''denied'')] \<and>
   fired (getUsageAndQuota (refusing Synced)) = [(error, MessageKey (Error ''denied''))] \<and>
   MessagerKey ''denied'' \<noteq> Raw (Error ''denied'') \<and>
   MessagerKey ''denied'' \<noteq> ErrorKey (Error ''denied'') \<and>
   MessageKey (Error ''denied'') \<noteq> Raw (Error ''denied'') \<and>
   MessageKey (Error ''denied'') \<noteq> ErrorKey (Error ''denied'')"
  by (simp add: refusing_def sample_defs fired_def getUsageAndQuota_def
        web_getUsageAndQuota_def sync_getUsageAndQuota_def mount_defs issue_def answer_def
        fire_def)


subsection \<open>The persistent mount and the granted quota\<close>

text \<open>
  C9, as the spec states it, has \<open>grantedQuota\<close> set once, on a successful mount. Here
  the quota is granted and the filesystem refused: the mount fails, no filesystem is
  held, and \<open>grantedQuota\<close> is 1024 all the same. A second mount, granted and refused
  again, sets it again.
\<close>

theorem granted_quota_without_mount:
  "grantedQuota (el mount_refused) = 0 \<and>
   fst (priv_requestFilesystem mount_refused) = Rejected (Error ''SecurityError'') \<and>
   fileSystem (el (snd (priv_requestFilesystem mount_refused))) = None \<and>
   grantedQuota (el (snd (priv_requestFilesystem mount_refused))) = 1024 \<and>
   log (snd (priv_requestFilesystem
          ((snd (priv_requestFilesystem mount_refused))
             \<lparr>faults := [None, Some (Error ''SecurityError'')]\<rparr>))) =
     [Request (RequestQuota 1024), SetGrantedQuota 1024, Request (RequestFileSystem 1024),
      Request (RequestQuota 1024), SetGrantedQuota 1024, Request (RequestFileSystem 1024)]"
  by (simp add: mount_refused_def sample_defs mount_defs issue_def answer_def)

text \<open>
  C9, amended. A persistent mount on an element that holds no filesystem first asks for
  a quota of \<open>quota\<close> bytes. When that is refused, nothing else happens. When \<open>g\<close> bytes
  are granted, \<open>grantedQuota\<close> is set to \<open>g\<close> there and then, and a persistent filesystem
  of \<open>g\<close> bytes is requested; when that is refused the mount fails with \<open>grantedQuota\<close>
  set, and when it is served the handle is stored and the mount succeeds.
\<close>

theorem persistent_mount_records_the_grant:
  assumes "backend (el w) = Persistent" and "fileSystem (el w) = None"
  shows "(\<forall>e fs. faults w = Some e # fs \<longrightarrow>
            priv_requestFilesystem w =
              (Rejected e, w\<lparr>log := log w @ [Request (RequestQuota (quota (el w)))],
                             faults := fs\<rparr>)) \<and>
         (\<forall>e fs. faults w = None # Some e # fs \<longrightarrow>
            fst (priv_requestFilesystem w) = Rejected e \<and>
            grantedQuota (el (snd (priv_requestFilesystem w))) = grant w (quota (el w)) \<and>
            fileSystem (el (snd (priv_requestFilesystem w))) = None \<and>
            log (snd (priv_requestFilesystem w)) = log w @
              [Request (RequestQuota (quota (el w))), SetGrantedQuota (grant w (quota (el w))),
               Request (RequestFileSystem (grant w (quota (el w))))]) \<and>
         (list_all (\<lambda>f. f = None) (take 2 (faults w)) \<longrightarrow>
            fst (priv_requestFilesystem w) = Resolved () \<and>
            grantedQuota (el (snd (priv_requestFilesystem w))) = grant w (quota (el w)) \<and>
            fileSystem (el (snd (priv_requestFilesystem w))) = Some (Suc (handles w)) \<and>
            log (snd (priv_requestFilesystem w)) = log w @
              [Request (RequestQuota (quota (el w))), SetGrantedQuota (grant w (quota (el w))),
               Request (RequestFileSystem (grant w (quota (el w)))),
               SetFileSystem (Suc (handles w))])"
proof -
  have served: "faults w = [] \<or> faults w = [None] \<or> (\<exists>fs. faults w = None # None # fs)"
    if "list_all (\<lambda>f. f = None) (take 2 (faults w))"
    using that by (cases "faults w"; cases "tl (faults w)") auto
  show ?thesis
    using assms served
    by (auto simp add: mount_defs issue_def answer_def new_handle_def)
qed

theorem persistent_mount_records_the_grant_witness:
  "backend (el mount_refused) = Persistent \<and> fileSystem (el mount_refused) = None \<and>
   faults mount_refused = [None, Some (Error ''SecurityError'')] \<and>
   fst (priv_requestFilesystem mount_refused) = Rejected (Error ''SecurityError'') \<and>
   grantedQuota (el (snd (priv_requestFilesystem mount_refused))) = 1024 \<and>
   list_all (\<lambda>f. f = None) (take 2 (faults (named Persistent))) \<and>
   fst (priv_requestFilesystem (named Persistent)) = Resolved () \<and>
   grantedQuota (el (snd (priv_requestFilesystem (named Persistent)))) = 1024 \<and>
   log (snd (priv_requestFilesystem (named Persistent))) =
     [Request (RequestQuota 1024), SetGrantedQuota 1024, Request (RequestFileSystem 1024),
      SetFileSystem 1]"
proof -
  have r: "backend (el mount_refused) = Persistent" "fileSystem (el mount_refused) = None"
    "faults mount_refused = [None, Some (Error ''SecurityError'')]"
    "grant mount_refused (quota (el mount_refused)) = 1024"
    by (simp_all add: mount_refused_def sample_defs)
  have n: "backend (el (named Persistent)) = Persistent" "fileSystem (el (named Persistent)) = None"
    "faults (named Persistent) = []" "log (named Persistent) = []"
    "grant (named Persistent) (quota (el (named Persistent))) = 1024"
    "handles (named Persistent) = 0" "quota (el (named Persistent)) = 1024"
    by (simp_all add: sample_defs)
  show ?thesis
    using persistent_mount_records_the_grant [OF r(1,2)]
      persistent_mount_records_the_grant [OF n(1,2)] r n
    by simp
qed


subsection \<open>The synced behavior and the user who is not signed in\<close>












text \<open>
  Left out of the amended statement: a message that starts with the sentinel. The test
  is \<^verbatim>\<open>indexOf(...) > 0\<close>, and such a message is passed on as it is.
\<close>

lemma sentinel_first:
  "fst (getFile ((named Synced)\<lparr>faults := [Some (Error ''error code: -107'')]\<rparr>)) =
     Rejected (Error ''error code: -107'')"
  by (simp add: sample_defs getFile_def sync_getFile_def mount_defs issue_def answer_def
        not_signed_in_def indexOf_def sentinel_def)


subsection \<open>One mount for calls made one after another\<close>

lemma handle_writes_view: "handle_writes w = length (filter is_handle_write (mount_view w))"
proof -
  have "(is_mount_step a \<and> is_handle_write a) = is_handle_write a" for a
    by (cases a) simp_all
  then show ?thesis by (simp add: handle_writes_def mount_view_def)
qed

lemma same_mount_refl [simp]: "same_mount w w"
  by (simp add: same_mount_def)

lemma same_mount_trans: "same_mount w w1 \<Longrightarrow> same_mount w1 w2 \<Longrightarrow> same_mount w w2"
  by (simp add: same_mount_def)

lemma same_mount_one: "same_mount w w1 \<Longrightarrow> one_mount w w1"
  by (auto simp add: one_mount_def same_mount_def handle_writes_view split: option.split)

lemma one_mount_refl [simp]: "one_mount w w"
  by (simp add: same_mount_one)

lemma one_mount_same: "one_mount w w1 \<Longrightarrow> same_mount w1 w2 \<Longrightarrow> one_mount w w2"
  by (auto simp add: one_mount_def same_mount_def handle_writes_view split: option.splits)

lemma one_mount_trans: "one_mount w w1 \<Longrightarrow> one_mount w1 w2 \<Longrightarrow> one_mount w w2"
  by (auto simp add: one_mount_def same_mount_def handle_writes_view split: option.splits)

lemma same_mountI:
  "fileSystem (el w1) = fileSystem (el w) \<Longrightarrow> log w1 = log w @ as \<Longrightarrow>
     \<forall>a \<in> set as. \<not> is_mount_step a \<Longrightarrow> same_mount w w1"
  by (simp add: same_mount_def mount_view_def)

lemma same_mount_browser [simp]:
  "same_mount w (snd (root_getFile n w))"
  "same_mount w (snd (createWriter n w))"
  "same_mount w (snd (writer_truncate n k w))"
  "same_mount w (snd (writer_write n b w))"
  "same_mount w (snd (entry_file n w))"
  "same_mount w (snd (readAsText n bs w))"
  "same_mount w (snd (entry_remove n w))"
  "same_mount w (fire e d w)"
  "same_mount w (issue CreateReader w)"
  "same_mount w (issue ReadEntries w)"
  "same_mount w (issue QueryUsageAndQuota w)"
  "same_mount w (issue SyncGetUsageAndQuota w)"
  "same_mount w (snd (answer w))"
  by (simp_all add: same_mount_def mount_view_def issue_def)

lemma same_mount_andThen:
  assumes "same_mount w (snd p)" and "\<And>v w1. same_mount w1 (snd (f v w1))"
  shows "same_mount w (snd (andThen p f))"
  using assms same_mount_trans by (auto simp add: andThen_snd split: outcome.split)

lemma one_mount_andThen:
  assumes "one_mount w (snd p)" and "\<And>v w1. one_mount w1 (snd (f v w1))"
  shows "one_mount w (snd (andThen p f))"
  using assms one_mount_trans by (auto simp add: andThen_snd split: outcome.split)

lemma one_mount_mount: "one_mount w (snd (priv_requestFilesystem w))"
  by (cases "backend (el w)"; cases "fileSystem (el w)")
     (simp_all add: one_mount_def same_mount_def mount_view_def handle_writes_def mount_defs
        issue_def answer_def new_handle_def split: list.split option.split)

lemma one_mount_getFile: "one_mount w (snd (getFile w))"
  using one_mount_mount [of w] one_mount_same [OF one_mount_mount same_mount_browser(1)]
  by (simp add: getFile_unfold split: outcome.split)

lemma same_mount_steps [simp]:
  "same_mount w (snd (priv_truncate e w))"
  "same_mount w (snd (priv_writeFileEntry e w))"
  "same_mount w (snd (priv_readFileContents e w))"
proof -
  show "same_mount w (snd (priv_truncate e w))"
    unfolding priv_truncate_def by (rule same_mount_andThen) simp_all
  show "same_mount w (snd (priv_readFileContents e w))"
    unfolding priv_readFileContents_def by (rule same_mount_andThen) simp_all
  have "same_mount w1 (snd (andThen (writer_write n b w1) (\<lambda>u w2. (Resolved e, w2))))"
    for n b w1
    by (rule same_mount_andThen) simp_all
  then show "same_mount w (snd (priv_writeFileEntry e w))"
    unfolding priv_writeFileEntry_def
    by (intro same_mount_andThen) (simp_all split: option.split)
qed

lemma one_mount_writeFile: "one_mount w (writeFile w)"
proof -
  let ?p = "andThen (andThen (andThen (getFile w) priv_truncate) (\<lambda>u. getFile))
              priv_writeFileEntry"
  have "one_mount w (snd ?p)"
    by (intro one_mount_andThen one_mount_getFile same_mount_one same_mount_steps)
  then show ?thesis
    using one_mount_same [OF _ same_mount_browser(8)]
    by (auto simp add: writeFile_def case_prod_beta split: outcome.split)
qed

lemma one_mount_set_content: "one_mount w (set_content c w)"
proof -
  have "same_mount w (w\<lparr>el := (el w)\<lparr>content := c\<rparr>\<rparr>)"
    by (simp add: same_mount_def mount_view_def)
  from one_mount_trans [OF same_mount_one [OF this] one_mount_writeFile] this
  show ?thesis
    by (simp add: set_content_def priv_contentChanged_def same_mount_one)
qed

lemma one_mount_readFile: "one_mount w (readFile w)"
proof -
  let ?p = "andThen (getFile w) priv_readFileContents"
  have p: "one_mount w (snd ?p)"
    by (intro one_mount_andThen one_mount_getFile same_mount_one same_mount_steps)
  have "same_mount (snd ?p) (readFile w)"
    by (simp add: readFile_unfold same_mount_def mount_view_def async_def
          split: outcome.split)
  from one_mount_same [OF p this] show ?thesis .
qed

lemma one_mount_set_filename: "one_mount w (set_filename n w)"
proof -
  have "same_mount w (w\<lparr>el := (el w)\<lparr>filename := n\<rparr>\<rparr>)"
    by (simp add: same_mount_def mount_view_def)
  from one_mount_trans [OF same_mount_one [OF this] one_mount_readFile] this
  show ?thesis
    by (simp add: set_filename_def priv_filenameChanged_def same_mount_one)
qed

lemma same_mount_readEntries: "same_mount w (readEntries pages entries w)"
proof (induction pages arbitrary: entries w)
  case Nil
  show ?case
    by (simp add: same_mount_def mount_view_def issue_def answer_def
          split: list.split option.split)
next
  case (Cons p pages)
  have "same_mount w (snd (answer (issue ReadEntries w)))"
    by (rule same_mount_trans [OF same_mount_browser(10) same_mount_browser(13)])
  then show ?case
    using same_mount_trans [OF _ Cons.IH] same_mount_trans [OF _ same_mount_browser(8)]
    by (auto simp add: case_prod_beta split: option.split)
qed

lemma one_mount_list: "one_mount w (list' w)"
proof -
  have "one_mount w (snd (priv_listImpl w))"
    unfolding priv_listImpl_def
    by (intro one_mount_andThen one_mount_mount same_mount_one)
       (simp add: same_mount_trans [OF same_mount_browser(9) same_mount_readEntries])
  then show ?thesis
    using one_mount_same [OF _ same_mount_browser(8)]
    by (auto simp add: list'_def web_list_def sync_list_def case_prod_beta
          split: backend.split outcome.split)
qed

lemma one_mount_remove: "one_mount w (remove' w)"
proof (cases "filename (el w) = []")
  case True
  then show ?thesis by (simp add: remove'_def same_mount_one)
next
  case False
  have g: "one_mount w (snd (getFile w))" by (rule one_mount_getFile)
  have "one_mount w (snd (entry_remove n (snd (getFile w))))" for n
    by (rule one_mount_same [OF g]) simp
  then show ?thesis
    using False g one_mount_same [OF _ same_mount_browser(8)]
    by (auto simp add: remove_unfold split: outcome.split)
qed

lemma one_mount_requestFilesystem: "one_mount w (requestFilesystem w)"
  using one_mount_mount [of w] one_mount_same [OF one_mount_mount same_mount_browser(8)]
  by (auto simp add: requestFilesystem_def case_prod_beta split: outcome.split)

lemma one_mount_usage: "one_mount w (getUsageAndQuota w)"
proof (cases "backend (el w)")
  case Persistent
  have "same_mount w (snd (answer (issue QueryUsageAndQuota w)))"
    by (rule same_mount_trans [OF same_mount_browser(11) same_mount_browser(13)])
  then have "same_mount w (web_getUsageAndQuota w)"
    using same_mount_trans [OF _ same_mount_browser(8)]
    by (auto simp add: web_getUsageAndQuota_def case_prod_beta
          split: option.split reason.split)
  then show ?thesis using Persistent by (simp add: getUsageAndQuota_def same_mount_one)
next
  case Synced
  let ?w1 = "snd (priv_requestFilesystem w)"
  have m: "one_mount w ?w1" by (rule one_mount_mount)
  have "same_mount ?w1 (snd (answer (issue SyncGetUsageAndQuota ?w1)))"
    by (rule same_mount_trans [OF same_mount_browser(12) same_mount_browser(13)])
  from one_mount_same [OF m this] have "one_mount w (sync_getUsageAndQuota w)"
    using m one_mount_same [OF _ same_mount_browser(8)]
    by (auto simp add: sync_getUsageAndQuota_def case_prod_beta
          split: outcome.split option.split)
  then show ?thesis using Synced by (simp add: getUsageAndQuota_def)
qed

lemma same_mount_run_async: "same_mount w (run_async w)"
proof -
  have "same_mount w (foldl (\<lambda>w1 saved. set_auto saved w1) v ts)" if "same_mount w v" for v ts
    using that
  proof (induction ts arbitrary: v)
    case Nil
    then show ?case by simp
  next
    case (Cons t ts)
    have "same_mount w (set_auto t v)"
      using Cons.prems by (simp add: same_mount_def mount_view_def set_auto_def)
    from Cons.IH [OF this] show ?case by simp
  qed
  moreover have "same_mount w (w\<lparr>tasks := []\<rparr>)"
    by (simp add: same_mount_def mount_view_def)
  ultimately show ?thesis by (simp add: run_async_def)
qed

lemma one_mount_perform: "one_mount w (perform c w)"
proof (cases c)
  case (Set_auto b)
  then show ?thesis by (simp add: same_mount_one same_mount_def mount_view_def set_auto_def)
next
  case (Set_quota q)
  then show ?thesis by (simp add: same_mount_one same_mount_def mount_view_def)
next
  case (Set_mime m)
  then show ?thesis by (simp add: same_mount_one same_mount_def mount_view_def)
qed (simp_all add: one_mount_requestFilesystem one_mount_usage one_mount_getFile
      one_mount_readFile one_mount_writeFile one_mount_list one_mount_remove
      one_mount_set_filename one_mount_set_content same_mount_one same_mount_run_async
      read'_def write'_def)

lemma one_mount_run: "one_mount w (run cs w)"
proof (induction cs arbitrary: w)
  case Nil
  then show ?case by (simp add: run_def)
next
  case (Cons c cs)
  have "run (c # cs) w = run cs (perform c w)" by (simp add: run_def)
  then show ?case
    using one_mount_trans [OF one_mount_perform Cons.IH] by simp
qed

text \<open>
  The big-step mount is the replay of its callbacks in order, when nothing else comes
  in between.
\<close>

lemma mount_replay:
  assumes "backend (el w) = Persistent" and "fileSystem (el w) = None" and "faults w = []"
  shows "snd (priv_requestFilesystem w) =
           foldl mount_step w [Called, Granted (grant w (quota (el w))), Initialised]"
  using assms by (simp add: mount_defs issue_def answer_def new_handle_def)

text \<open>
  C4, as the spec states it, has the handle written at most once per element. Here
  \<^verbatim>\<open>_requestFilesystem\<close> is called twice before the browser has answered the first
  call (as when \<open>readFile\<close> and \<open>writeFile\<close> are called in a row on a new element):
  both calls find no handle and ask for quota, both grants are answered with a request
  for a filesystem, and both filesystems are stored. The handle is written twice, and
  the second write replaces the first handle.
\<close>

theorem overlapping_mounts_write_the_handle_twice:
  "fileSystem (el (named Persistent)) = None \<and>
   log (foldl mount_step (named Persistent)
          [Called, Called, Granted 1024, Granted 1024, Initialised, Initialised]) =
     [Request (RequestQuota 1024), Request (RequestQuota 1024),
      SetGrantedQuota 1024, Request (RequestFileSystem 1024),
      SetGrantedQuota 1024, Request (RequestFileSystem 1024),
      SetFileSystem 1, SetFileSystem 2] \<and>
   handle_writes (foldl mount_step (named Persistent)
          [Called, Called, Granted 1024, Granted 1024, Initialised, Initialised]) = 2 \<and>
   fileSystem (el (foldl mount_step (named Persistent)
          [Called, Called, Granted 1024, Granted 1024, Initialised])) = Some 1 \<and>
   fileSystem (el (foldl mount_step (named Persistent)
          [Called, Called, Granted 1024, Granted 1024, Initialised, Initialised])) = Some 2"
  by (simp add: sample_defs handle_writes_def mount_defs issue_def new_handle_def)

text \<open>
  C4, amended. When the element holds a handle, \<^verbatim>\<open>_requestFilesystem\<close> resolves at once
  and changes nothing: no request, no write of the handle. Through any calls made one
  after the other, each finished before the next, an element that holds a handle keeps
  that handle and the log gains no step of a mount; and an element that holds none has
  its handle written at most once.
\<close>

theorem mount_is_set_once_in_sequence:
  "(\<forall>fs. fileSystem (el w) = Some fs \<longrightarrow>
      priv_requestFilesystem w = (Resolved (), w) \<and>
      (\<forall>cs. fileSystem (el (run cs w)) = Some fs \<and>
            filter is_mount_step (log (run cs w)) = filter is_mount_step (log w))) \<and>
   (fileSystem (el w) = None \<longrightarrow>
      (\<forall>cs. handle_writes (run cs w) \<le> Suc (handle_writes w) \<and>
            (fileSystem (el (run cs w)) = None \<longrightarrow>
               handle_writes (run cs w) = handle_writes w)))"
proof -
  have "fileSystem (el (run cs w)) = Some fs \<and>
        filter is_mount_step (log (run cs w)) = filter is_mount_step (log w)"
    if "fileSystem (el w) = Some fs" for fs cs
    using that one_mount_run [of w cs]
    by (simp add: one_mount_def same_mount_def mount_view_def)
  moreover have "handle_writes (run cs w) \<le> Suc (handle_writes w) \<and>
        (fileSystem (el (run cs w)) = None \<longrightarrow> handle_writes (run cs w) = handle_writes w)"
    if "fileSystem (el w) = None" for cs
    using that one_mount_run [of w cs] by (auto simp add: one_mount_def)
  ultimately show ?thesis using mount_held by blast
qed

theorem mount_is_set_once_in_sequence_witness:
  "fileSystem (el (named Persistent)) = None \<and>
   handle_writes (named Persistent) = 0 \<and>
   handle_writes (run [Do_readFile, Do_writeFile, Do_list, Do_requestFilesystem]
                    (named Persistent)) \<le> 1 \<and>
   fileSystem (el (requestFilesystem (named Synced))) = Some 1 \<and>
   priv_requestFilesystem (requestFilesystem (named Synced)) =
     (Resolved (), requestFilesystem (named Synced)) \<and>
   fileSystem (el (run [Do_write, Do_remove, Do_getUsageAndQuota]
                     (requestFilesystem (named Synced)))) = Some 1 \<and>
   filter is_mount_step (log (run [Do_write, Do_remove, Do_getUsageAndQuota]
                                (requestFilesystem (named Synced)))) =
     [Request SyncRequestFileSystem, SetFileSystem 1]"
proof -
  have n: "fileSystem (el (named Persistent)) = None" "handle_writes (named Persistent) = 0"
    by (simp_all add: sample_defs handle_writes_def)
  have s: "fileSystem (el (requestFilesystem (named Synced))) = Some 1"
    "filter is_mount_step (log (requestFilesystem (named Synced))) =
       [Request SyncRequestFileSystem, SetFileSystem 1]"
    by (simp_all add: sample_defs requestFilesystem_def mount_defs issue_def answer_def
          new_handle_def fire_def)
  show ?thesis
    using mount_is_set_once_in_sequence [of "named Persistent"]
      mount_is_set_once_in_sequence [of "requestFilesystem (named Synced)"] n s
    by simp
qed


end
